theory Spec2Isabelle
  imports Main "HOL-Library.Product_Lexorder" "HOL-Library.List_Lexorder" "HOL-Library.Char_ord"
    "HOL-Library.Multiset"
begin

section \<open>Data model (src/app.py, lines 31-49)\<close>

text \<open>
  A Python \<open>datetime\<close> as produced by \<open>datetime.utcnow\<close>. Python compares two
  datetimes field by field, from the year down to the microsecond.
\<close>

record datetime =
  dt_year :: nat
  dt_month :: nat
  dt_day :: nat
  dt_hour :: nat
  dt_minute :: nat
  dt_second :: nat
  dt_microsecond :: nat

definition dt_key :: "datetime \<Rightarrow> nat \<times> nat \<times> nat \<times> nat \<times> nat \<times> nat \<times> nat" where
  "dt_key t = (dt_year t, dt_month t, dt_day t, dt_hour t, dt_minute t, dt_second t,
     dt_microsecond t)"

text \<open>The range of fields that the class \<open>datetime\<close> admits (MINYEAR = 1, MAXYEAR = 9999).\<close>

definition valid_datetime :: "datetime \<Rightarrow> bool" where
  "valid_datetime t \<longleftrightarrow>
     1 \<le> dt_year t \<and> dt_year t \<le> 9999 \<and> 1 \<le> dt_month t \<and> dt_month t \<le> 12 \<and>
     1 \<le> dt_day t \<and> dt_day t \<le> 31 \<and> dt_hour t < 24 \<and> dt_minute t < 60 \<and>
     dt_second t < 60 \<and> dt_microsecond t < 1000000"

text \<open>Row of table \<open>AccessLink\<close>: \<open>id\<close>, \<open>token\<close>, \<open>is_active\<close>, \<open>created_at\<close>.\<close>

record access_link =
  link_id :: nat
  link_token :: string
  link_is_active :: bool
  link_created_at :: datetime

text \<open>
  Row of table \<open>Attendee\<close>: \<open>id\<close>, \<open>name\<close>, \<open>role\<close>, \<open>group\<close> (nullable),
  \<open>timestamp\<close>, \<open>access_token_used\<close>.
\<close>

record attendee =
  att_id :: nat
  att_name :: string
  att_role :: string
  att_group :: "string option"
  att_timestamp :: datetime
  att_access_token_used :: string

text \<open>The database: both tables, rows in insertion order.\<close>

record db =
  links :: "access_link list"
  attendees :: "attendee list"

text \<open>
  The signed session cookie. The only key the handlers read is \<open>admin_logged_in\<close>;
  \<open>session.get\<close> of an absent key is falsy, so absent and false coincide.
\<close>

record session =
  admin_logged_in :: bool

text \<open>The two credentials read from the environment at start-up.\<close>

record config =
  ADMIN_USERNAME :: string
  ADMIN_PASSWORD :: string

section \<open>Responses\<close>

datatype http_method = GET | POST

text \<open>Targets of \<open>url_for\<close>.\<close>

datatype endpoint =
  EP_register string
  | EP_success
  | EP_admin_login
  | EP_admin_dashboard

text \<open>The keyword arguments handed to the dashboard template.\<close>

record dashboard_ctx =
  ctx_attendees :: "attendee list"
  ctx_links :: "access_link list"
  ctx_active_link :: "access_link option"
  ctx_sort_by :: string
  ctx_order :: string

datatype view =
  Redirect endpoint
  | InvalidLinkPage
  | RegisterPage string "string list"
  | SuccessPage
  | LoginPage
  | DashboardPage dashboard_ctx
  | CsvAttachment string string string
  | Abort404
  | ServerError

text \<open>
  What a request gives back: the messages it passed to \<open>flash\<close> (text and category,
  in order) and the view returned.
\<close>

record response =
  flashes :: "(string \<times> string) list"
  resp_view :: view

fun status_code :: "view \<Rightarrow> nat" where
  "status_code (Redirect _) = 302"
| "status_code InvalidLinkPage = 404"
| "status_code Abort404 = 404"
| "status_code ServerError = 500"
| "status_code _ = 200"

definition respond :: "(string \<times> string) list \<Rightarrow> view \<Rightarrow> response" where
  "respond fl v = \<lparr>flashes = fl, resp_view = v\<rparr>"

section \<open>Authentication decorator (lines 52-59)\<close>

text \<open>
  \<open>login_required f\<close>: without the session flag the wrapped handler is not run; the
  request flashes a warning and redirects to the login view.
\<close>

definition guard_response :: response where
  "guard_response = respond [(''Please log in to access this page.'', ''warning'')]
     (Redirect EP_admin_login)"

definition login_required :: "session \<Rightarrow> db \<Rightarrow> (db \<Rightarrow> db \<times> response) \<Rightarrow> db \<times> response" where
  "login_required sess d f =
     (if \<not> admin_logged_in sess then (d, guard_response) else f d)"

section \<open>Link manager (lines 152-179)\<close>

text \<open>The integer primary key of a new row: one more than the largest key in the table.\<close>

definition next_id :: "nat list \<Rightarrow> nat" where
  "next_id ids = Suc (fold max ids 0)"

text \<open>\<open>AccessLink.query.update({AccessLink.is_active: False})\<close>.\<close>

definition deactivate_all :: "access_link list \<Rightarrow> access_link list" where
  "deactivate_all ls = map (\<lambda>l. l\<lparr>link_is_active := False\<rparr>) ls"

text \<open>Assignment to \<open>link.is_active\<close> of the row with the given primary key.\<close>

definition set_active :: "nat \<Rightarrow> bool \<Rightarrow> access_link list \<Rightarrow> access_link list" where
  "set_active i b ls = map (\<lambda>l. if link_id l = i then l\<lparr>link_is_active := b\<rparr> else l) ls"

text \<open>
  \<open>generate_link\<close>. The token is the value of \<open>uuid.uuid4()\<close> and the creation time
  that of \<open>datetime.utcnow()\<close>, both taken as inputs. Column \<open>token\<close> is unique: a
  token already in the table makes the commit raise, the transaction is rolled back
  and the request ends as a server error.
\<close>

definition generate_link :: "session \<Rightarrow> string \<Rightarrow> datetime \<Rightarrow> db \<Rightarrow> db \<times> response" where
  "generate_link sess tok now d = login_required sess d (\<lambda>d.
     let ls = deactivate_all (links d);
         new_link = \<lparr>link_id = next_id (map link_id ls), link_token = tok,
                     link_is_active = True, link_created_at = now\<rparr>
     in if tok \<in> set (map link_token ls) then (d, respond [] ServerError)
        else (d\<lparr>links := ls @ [new_link]\<rparr>,
              respond [(''New access link generated and activated. Previous links have been deactivated.'', ''success'')]
                (Redirect EP_admin_dashboard)))"

text \<open>The largest value of an SQLite integer, as a column value and as a query parameter.\<close>

definition sqlite_max_int :: nat where
  "sqlite_max_int = 9223372036854775807"

text \<open>
  \<open>toggle_link_status\<close>. The \<open>int\<close> converter of the route accepts every
  non-negative integer. On the default SQLite database an id above \<open>sqlite_max_int\<close>
  cannot be bound to the query of \<open>get_or_404\<close>: the lookup raises and the request ends
  as a server error. Otherwise \<open>get_or_404\<close> aborts with 404 when the key is absent.
\<close>

definition toggle_link_status :: "session \<Rightarrow> nat \<Rightarrow> db \<Rightarrow> db \<times> response" where
  "toggle_link_status sess i d = login_required sess d (\<lambda>d.
     if sqlite_max_int < i then (d, respond [] ServerError)
     else
       case find (\<lambda>l. link_id l = i) (links d) of
         None \<Rightarrow> (d, respond [] Abort404)
       | Some link \<Rightarrow>
           if \<not> link_is_active link then
             (d\<lparr>links := set_active i True (deactivate_all (links d))\<rparr>,
              respond [(''Link '' @ take 8 (link_token link) @ ''... has been activated. All other links deactivated.'', ''success'')]
                (Redirect EP_admin_dashboard))
           else
             (d\<lparr>links := set_active i False (links d)\<rparr>,
              respond [(''Link '' @ take 8 (link_token link) @ ''... has been deactivated.'', ''warning'')]
                (Redirect EP_admin_dashboard)))"

text \<open>The rows with \<open>is_active = true\<close>, and the invariant of the table.\<close>

definition active_links :: "access_link list \<Rightarrow> access_link list" where
  "active_links ls = filter link_is_active ls"

definition at_most_one_active :: "db \<Rightarrow> bool" where
  "at_most_one_active d \<longleftrightarrow> length (active_links (links d)) \<le> 1"

text \<open>The primary-key constraint of table \<open>AccessLink\<close>.\<close>

definition link_ids_unique :: "db \<Rightarrow> bool" where
  "link_ids_unique d \<longleftrightarrow> distinct (map link_id (links d))"

text \<open>A sequence of link operations, and the database after each of them.\<close>

datatype link_op = GenerateLink string datetime | ToggleLink nat

fun apply_link_op :: "session \<Rightarrow> link_op \<Rightarrow> db \<Rightarrow> db" where
  "apply_link_op sess (GenerateLink tok now) d = fst (generate_link sess tok now d)"
| "apply_link_op sess (ToggleLink i) d = fst (toggle_link_status sess i d)"

fun run_link_ops :: "session \<Rightarrow> link_op list \<Rightarrow> db \<Rightarrow> db list" where
  "run_link_ops sess [] d = []"
| "run_link_ops sess (x # xs) d =
     (let d' = apply_link_op sess x d in d' # run_link_ops sess xs d')"

section \<open>Registration handler (lines 62-89)\<close>

text \<open>The form fields of a registration request; \<open>request.form.get\<close> gives \<open>None\<close>
  for a field that is missing.\<close>

record reg_form =
  form_name :: "string option"
  form_role :: "string option"
  form_group :: "string option"

definition roles :: "string list" where
  "roles = [''Member'', ''Leader'', ''Guest'', ''First-timer'', ''Volunteer'']"

text \<open>Python's \<open>not x\<close> for a form value: true for \<open>None\<close> and for the empty string.\<close>

definition py_not :: "string option \<Rightarrow> bool" where
  "py_not x \<longleftrightarrow> x = None \<or> x = Some []"

text \<open>
  \<open>register\<close>. The link is looked up in the table as it is when the request runs, for
  GET and POST alike. The creation time of the new row is the value of
  \<open>datetime.utcnow()\<close>, taken as an input.
\<close>

definition register :: "string \<Rightarrow> http_method \<Rightarrow> reg_form \<Rightarrow> datetime \<Rightarrow> db \<Rightarrow> db \<times> response" where
  "register tok meth form now d =
     (case find (\<lambda>l. link_token l = tok \<and> link_is_active l) (links d) of
        None \<Rightarrow> (d, respond [] InvalidLinkPage)
      | Some link \<Rightarrow>
          if meth = POST then
            (case (form_name form, form_role form) of
               (Some name, Some role) \<Rightarrow>
                 if py_not (Some name) \<or> py_not (Some role) then
                   (d, respond [(''Name and Role are required fields.'', ''danger'')]
                         (Redirect (EP_register tok)))
                 else
                   (d\<lparr>attendees := attendees d @
                        [\<lparr>att_id = next_id (map att_id (attendees d)), att_name = name,
                          att_role = role, att_group = form_group form,
                          att_timestamp = now, att_access_token_used = tok\<rparr>]\<rparr>,
                    respond [] (Redirect EP_success))
             | _ \<Rightarrow>
                 (d, respond [(''Name and Role are required fields.'', ''danger'')]
                       (Redirect (EP_register tok))))
          else (d, respond [] (RegisterPage tok roles)))"

section \<open>Admin session (lines 100-120)\<close>

text \<open>
  \<open>admin_login\<close>. The submitted fields are \<open>None\<close> when missing; the comparison is
  Python's \<open>==\<close> between the submitted value and the configured string.
\<close>

definition admin_login ::
  "config \<Rightarrow> http_method \<Rightarrow> string option \<Rightarrow> string option \<Rightarrow> session \<Rightarrow> session \<times> response" where
  "admin_login cfg meth username password sess =
     (if admin_logged_in sess then (sess, respond [] (Redirect EP_admin_dashboard))
      else if meth = POST then
        (if username = Some (ADMIN_USERNAME cfg) \<and> password = Some (ADMIN_PASSWORD cfg) then
           (sess\<lparr>admin_logged_in := True\<rparr>,
            respond [(''Login successful!'', ''success'')] (Redirect EP_admin_dashboard))
         else
           (sess, respond [(''Invalid credentials. Please try again.'', ''danger'')] LoginPage))
      else (sess, respond [] LoginPage))"

text \<open>\<open>admin_logout\<close>: \<open>session.pop('admin_logged_in', None)\<close>; the route carries no
  decorator.\<close>

definition admin_logout :: "session \<Rightarrow> session \<times> response" where
  "admin_logout sess =
     (sess\<lparr>admin_logged_in := False\<rparr>,
      respond [(''You have been logged out.'', ''info'')] (Redirect EP_admin_login))"

section \<open>Roster viewer (lines 122-150)\<close>

text \<open>A column value as the query compares it.\<close>

datatype sql_value = Null | Text string | Stamp datetime

text \<open>Ordering of column values: NULL first, strings by code points, datetimes in time.\<close>

fun sql_le :: "sql_value \<Rightarrow> sql_value \<Rightarrow> bool" where
  "sql_le Null _ = True"
| "sql_le (Text a) (Text b) = (a \<le> b)"
| "sql_le (Stamp a) (Stamp b) = (dt_key a \<le> dt_key b)"
| "sql_le (Text _) (Stamp _) = True"
| "sql_le _ _ = False"

text \<open>\<open>ORDER BY\<close>: insertion sort under the given comparison; rows that compare equal
  keep the order of the table.\<close>

fun insort_by :: "('a \<Rightarrow> 'a \<Rightarrow> bool) \<Rightarrow> 'a \<Rightarrow> 'a list \<Rightarrow> 'a list" where
  "insort_by le x [] = [x]"
| "insort_by le x (y # ys) = (if le x y then x # y # ys else y # insort_by le x ys)"

definition order_by :: "('a \<Rightarrow> 'a \<Rightarrow> bool) \<Rightarrow> 'a list \<Rightarrow> 'a list" where
  "order_by le xs = foldr (insort_by le) xs []"

definition asc :: "('a \<Rightarrow> sql_value) \<Rightarrow> 'a \<Rightarrow> 'a \<Rightarrow> bool" where
  "asc key a b = sql_le (key a) (key b)"

definition desc :: "('a \<Rightarrow> sql_value) \<Rightarrow> 'a \<Rightarrow> 'a \<Rightarrow> bool" where
  "desc key a b = sql_le (key b) (key a)"

definition sortable_columns :: "string list" where
  "sortable_columns = [''name'', ''role'', ''group'', ''timestamp'']"

text \<open>\<open>getattr(Attendee, sort_by)\<close> for the four column names the handler sorts by;
  \<open>None\<close> for any other name.\<close>

definition attendee_column :: "string \<Rightarrow> (attendee \<Rightarrow> sql_value) option" where
  "attendee_column c =
     (if c = ''name'' then Some (\<lambda>a. Text (att_name a))
      else if c = ''role'' then Some (\<lambda>a. Text (att_role a))
      else if c = ''group'' then
        Some (\<lambda>a. case att_group a of None \<Rightarrow> Null | Some g \<Rightarrow> Text g)
      else if c = ''timestamp'' then Some (\<lambda>a. Stamp (att_timestamp a))
      else None)"

definition admin_dashboard ::
  "session \<Rightarrow> string option \<Rightarrow> string option \<Rightarrow> db \<Rightarrow> db \<times> response" where
  "admin_dashboard sess sort_by_arg order_arg d = login_required sess d (\<lambda>d.
     let sort_by = (case sort_by_arg of None \<Rightarrow> ''timestamp'' | Some s \<Rightarrow> s);
         order = (case order_arg of None \<Rightarrow> ''desc'' | Some s \<Rightarrow> s);
         sort_by = (if sort_by \<notin> set sortable_columns then ''timestamp'' else sort_by)
     in case attendee_column sort_by of
          None \<Rightarrow> (d, respond [] ServerError)
        | Some col \<Rightarrow>
            (d, respond [] (DashboardPage
               \<lparr>ctx_attendees =
                  (if order = ''asc'' then order_by (asc col) (attendees d)
                   else order_by (desc col) (attendees d)),
                ctx_links = order_by (desc (\<lambda>l. Stamp (link_created_at l))) (links d),
                ctx_active_link = find link_is_active (links d),
                ctx_sort_by = sort_by,
                ctx_order = order\<rparr>)))"

text \<open>
  What the listing returns, read off a response: the attendee rows in their order, the
  links, and the active link. The template also receives the two request parameters,
  \<open>sort_by\<close> after the fallback and \<open>order\<close> as submitted.
\<close>

fun dashboard_data :: "response \<Rightarrow> (attendee list \<times> access_link list \<times> access_link option) option" where
  "dashboard_data r =
     (case resp_view r of
        DashboardPage c \<Rightarrow> Some (ctx_attendees c, ctx_links c, ctx_active_link c)
      | _ \<Rightarrow> None)"

section \<open>CSV export (lines 181-210)\<close>

text \<open>\<open>str\<close> of a non-negative integer.\<close>

definition digit_char :: "nat \<Rightarrow> char" where
  "digit_char n = ''0123456789'' ! (n mod 10)"

function str_nat :: "nat \<Rightarrow> string" where
  "str_nat n = (if n < 10 then [digit_char n] else str_nat (n div 10) @ [digit_char (n mod 10)])"
  by pat_completeness auto
termination
  by (relation "measure id") auto

definition zero_pad :: "nat \<Rightarrow> string \<Rightarrow> string" where
  "zero_pad w s = replicate (w - length s) (CHR ''0'') @ s"

text \<open>
  \<open>strftime('%Y-%m-%d %H:%M:%S')\<close>: the year as a decimal number, written without
  padding as the C library does, and each other field padded with zeros to two digits.
\<close>

definition strftime :: "datetime \<Rightarrow> string" where
  "strftime t =
     str_nat (dt_year t) @ ''-'' @ zero_pad 2 (str_nat (dt_month t)) @ ''-'' @
     zero_pad 2 (str_nat (dt_day t)) @ '' '' @ zero_pad 2 (str_nat (dt_hour t)) @ '':'' @
     zero_pad 2 (str_nat (dt_minute t)) @ '':'' @ zero_pad 2 (str_nat (dt_second t))"

text \<open>
  \<open>csv.writer\<close> with the default dialect: fields joined by commas, a field holding a
  comma, a double quote, a carriage return or a line feed is enclosed in double quotes
  with its double quotes doubled, a row made of one empty field is written as two
  double quotes, and each row ends with carriage return and line feed.
\<close>

definition dquote :: char where
  "dquote = CHR 0x22"

definition csv_special :: "char list" where
  "csv_special = [CHR '','', CHR 0x22, CHR 0x0D, CHR 0x0A]"

definition needs_quoting :: "string \<Rightarrow> bool" where
  "needs_quoting s = list_ex (\<lambda>c. c \<in> set csv_special) s"

definition csv_quote :: "string \<Rightarrow> string" where
  "csv_quote s = [dquote] @ concat (map (\<lambda>c. if c = dquote then [dquote, dquote] else [c]) s)
     @ [dquote]"

definition csv_field :: "string \<Rightarrow> string" where
  "csv_field s = (if needs_quoting s then csv_quote s else s)"

fun join_fields :: "string list \<Rightarrow> string" where
  "join_fields [] = []"
| "join_fields [x] = x"
| "join_fields (x # y # ys) = x @ '','' @ join_fields (y # ys)"

definition writerow :: "string list \<Rightarrow> string" where
  "writerow row =
     (if row = [[]] then [dquote, dquote] else join_fields (map csv_field row))
     @ [CHR 0x0D, CHR 0x0A]"

definition csv_header :: "string list" where
  "csv_header = [''ID'', ''Name'', ''Role'', ''Group'', ''Timestamp (UTC)'', ''Access Token Used'']"

text \<open>The cells of one data row; \<open>None\<close> is written as the empty string.\<close>

definition attendee_row :: "attendee \<Rightarrow> string list" where
  "attendee_row a =
     [str_nat (att_id a), att_name a, att_role a,
      (case att_group a of None \<Rightarrow> [] | Some g \<Rightarrow> g),
      strftime (att_timestamp a), att_access_token_used a]"

text \<open>\<open>Attendee.query.order_by(Attendee.timestamp.desc()).all()\<close>.\<close>

definition export_rows :: "db \<Rightarrow> attendee list" where
  "export_rows d = order_by (desc (\<lambda>a. Stamp (att_timestamp a))) (attendees d)"

definition csv_body :: "db \<Rightarrow> string" where
  "csv_body d = writerow csv_header @ concat (map (\<lambda>a. writerow (attendee_row a)) (export_rows d))"

definition export_csv :: "session \<Rightarrow> db \<Rightarrow> db \<times> response" where
  "export_csv sess d = login_required sess d (\<lambda>d.
     (d, respond [] (CsvAttachment ''attachment; filename=attendance_export.csv'' ''text/csv''
           (csv_body d))))"

text \<open>
  Reading side, used to state what the exported text contains: the number of records
  of a CSV text is the number of line feeds outside double quotes; the flag tells
  whether the reader is inside a quoted field.
\<close>

fun count_records :: "bool \<Rightarrow> string \<Rightarrow> nat" where
  "count_records q [] = 0"
| "count_records q (c # cs) =
     (if c = CHR 0x22 then count_records (\<not> q) cs
      else if c = CHR 0x0A \<and> \<not> q then Suc (count_records q cs)
      else count_records q cs)"

text \<open>The shape of a text: every decimal digit replaced by \<open>9\<close>.\<close>

definition shape :: "string \<Rightarrow> string" where
  "shape s = map (\<lambda>c. if c \<in> set ''0123456789'' then CHR ''9'' else c) s"

section \<open>Routing of the admin operations\<close>

datatype admin_request =
  ReqLogout
  | ReqDashboard "string option" "string option"
  | ReqGenerateLink string datetime
  | ReqToggleLink nat
  | ReqExportCsv

text \<open>One admin request against the database and the session of the caller.\<close>

fun handle_admin :: "admin_request \<Rightarrow> db \<times> session \<Rightarrow> (db \<times> session) \<times> response" where
  "handle_admin ReqLogout (d, sess) =
     (case admin_logout sess of (sess', r) \<Rightarrow> ((d, sess'), r))"
| "handle_admin (ReqDashboard sort_by_arg order_arg) (d, sess) =
     (case admin_dashboard sess sort_by_arg order_arg d of (d', r) \<Rightarrow> ((d', sess), r))"
| "handle_admin (ReqGenerateLink tok now) (d, sess) =
     (case generate_link sess tok now d of (d', r) \<Rightarrow> ((d', sess), r))"
| "handle_admin (ReqToggleLink i) (d, sess) =
     (case toggle_link_status sess i d of (d', r) \<Rightarrow> ((d', sess), r))"
| "handle_admin ReqExportCsv (d, sess) =
     (case export_csv sess d of (d', r) \<Rightarrow> ((d', sess), r))"

section \<open>Sample values\<close>

definition sample_time :: datetime where
  "sample_time = \<lparr>dt_year = 2024, dt_month = 3, dt_day = 9, dt_hour = 7, dt_minute = 5,
     dt_second = 7, dt_microsecond = 1234\<rparr>"

definition later_time :: datetime where
  "later_time = sample_time\<lparr>dt_hour := 18\<rparr>"

definition empty_db :: db where
  "empty_db = \<lparr>links = [], attendees = []\<rparr>"

definition anonymous :: session where
  "anonymous = \<lparr>admin_logged_in = False\<rparr>"

definition admin_session :: session where
  "admin_session = \<lparr>admin_logged_in = True\<rparr>"

definition sample_config :: config where
  "sample_config = \<lparr>ADMIN_USERNAME = ''admin'', ADMIN_PASSWORD = ''password''\<rparr>"

definition link_A :: access_link where
  "link_A = \<lparr>link_id = 1, link_token = ''tok-A'', link_is_active = False,
     link_created_at = sample_time\<rparr>"

definition link_B :: access_link where
  "link_B = \<lparr>link_id = 2, link_token = ''tok-B'', link_is_active = True,
     link_created_at = later_time\<rparr>"

definition sample_attendees :: "attendee list" where
  "sample_attendees =
     [\<lparr>att_id = 1, att_name = ''Jo'', att_role = ''Guest'', att_group = Some [],
       att_timestamp = sample_time, att_access_token_used = ''tok-A''\<rparr>,
      \<lparr>att_id = 2, att_name = ''Smith, Ann'', att_role = ''Leader'', att_group = None,
       att_timestamp = later_time, att_access_token_used = ''tok-B''\<rparr>,
      \<lparr>att_id = 3, att_name = ''Al '' @ [CHR 0x22, CHR 0x0A, CHR 0x22] @ ''X'',
       att_role = ''Member'', att_group = Some ''Choir'',
       att_timestamp = sample_time\<lparr>dt_minute := 45, dt_second := 30\<rparr>,
       att_access_token_used = ''tok-B''\<rparr>]"

definition sample_db :: db where
  "sample_db = \<lparr>links = [link_A, link_B], attendees = sample_attendees\<rparr>"

definition sample_form :: reg_form where
  "sample_form = \<lparr>form_name = Some ''Jo'', form_role = Some ''Guest'', form_group = Some []\<rparr>"

section \<open>Properties of the link manager\<close>

lemma active_deactivate_all: "active_links (deactivate_all ls) = []"
  by (induction ls) (simp_all add: active_links_def deactivate_all_def)

lemma ids_deactivate_all: "map link_id (deactivate_all ls) = map link_id ls"
  by (simp add: deactivate_all_def)

lemma ids_set_active: "map link_id (set_active i b ls) = map link_id ls"
  by (induction ls) (simp_all add: set_active_def)

lemma fold_max_ge: "x \<in> set ids \<Longrightarrow> x \<le> fold max ids (m::nat)"
proof (induction ids arbitrary: m)
  case Nil
  then show ?case by simp
next
  case (Cons a ids)
  have mono: "m \<le> fold max ids m" for m :: nat
  proof (induction ids arbitrary: m)
    case Nil
    show ?case by simp
  next
    case (Cons b ids)
    have "m \<le> max b m" by simp
    also have "max b m \<le> fold max ids (max b m)" by (rule Cons.IH)
    finally show ?case by simp
  qed
  show ?case
  proof (cases "x = a")
    case True
    then show ?thesis using mono [of "max a m"] by simp
  next
    case False
    with Cons show ?thesis by simp
  qed
qed

lemma next_id_fresh: "next_id ids \<notin> set ids"
  using fold_max_ge [of "next_id ids" ids 0] by (auto simp: next_id_def)

lemma set_active_off_length:
  "length (active_links (set_active i False ls)) \<le> length (active_links ls)"
  by (induction ls) (simp_all add: set_active_def active_links_def)

lemma set_active_absent: "i \<notin> set (map link_id ls) \<Longrightarrow> set_active i b ls = ls"
  by (induction ls) (simp_all add: set_active_def)

lemma set_active_on_length:
  "distinct (map link_id ls) \<Longrightarrow> active_links ls = [] \<Longrightarrow>
     length (active_links (set_active i True ls)) \<le> 1"
proof (induction ls)
  case Nil
  then show ?case by (simp add: set_active_def active_links_def)
next
  case (Cons l ls)
  from Cons.prems have inact: "\<not> link_is_active l" and rest: "active_links ls = []"
    by (simp_all add: active_links_def split: if_splits)
  show ?case
  proof (cases "link_id l = i")
    case True
    with Cons.prems have "i \<notin> set (map link_id ls)" by auto
    then have "set_active i True ls = ls" by (rule set_active_absent)
    then have "set_active i True (l # ls) = l\<lparr>link_is_active := True\<rparr> # ls"
      using True by (simp add: set_active_def)
    with rest show ?thesis by (simp add: active_links_def)
  next
    case False
    then have "active_links (set_active i True (l # ls)) = active_links (set_active i True ls)"
      using inact by (simp add: set_active_def active_links_def)
    with Cons rest show ?thesis by simp
  qed
qed

lemma generate_link_inv:
  "at_most_one_active d \<Longrightarrow> at_most_one_active (fst (generate_link sess tok now d))"
  by (simp add: generate_link_def login_required_def Let_def at_most_one_active_def
      active_links_def deactivate_all_def o_def)

lemma generate_link_ids:
  "link_ids_unique d \<Longrightarrow> link_ids_unique (fst (generate_link sess tok now d))"
  using next_id_fresh [of "map link_id (links d)"]
  by (simp add: generate_link_def login_required_def Let_def link_ids_unique_def
      ids_deactivate_all)

lemma toggle_link_inv:
  "link_ids_unique d \<Longrightarrow> at_most_one_active d \<Longrightarrow>
     at_most_one_active (fst (toggle_link_status sess i d))"
  using set_active_off_length [of i "links d"]
    set_active_on_length [of "deactivate_all (links d)" i]
  by (auto simp: toggle_link_status_def login_required_def at_most_one_active_def
      link_ids_unique_def ids_deactivate_all active_deactivate_all split: option.splits)

lemma toggle_link_ids:
  "link_ids_unique d \<Longrightarrow> link_ids_unique (fst (toggle_link_status sess i d))"
  by (auto simp: toggle_link_status_def login_required_def link_ids_unique_def
      ids_deactivate_all ids_set_active split: option.splits)

lemma apply_link_op_inv:
  "link_ids_unique d \<Longrightarrow> at_most_one_active d \<Longrightarrow>
     link_ids_unique (apply_link_op sess x d) \<and> at_most_one_active (apply_link_op sess x d)"
  by (cases x) (simp_all add: generate_link_inv generate_link_ids toggle_link_inv toggle_link_ids)

text \<open>
  Claim C1. Starting from a table with unique primary keys and at most one active row,
  after every operation of any sequence of \<open>generate_link\<close> and \<open>toggle_link_status\<close>
  requests at most one row of \<open>AccessLink\<close> has \<open>is_active = true\<close>.
\<close>

theorem single_active_link_invariant:
  assumes "link_ids_unique d" and "at_most_one_active d"
  shows "\<forall>d' \<in> set (run_link_ops sess ops d). at_most_one_active d'"
  using assms
proof (induction ops arbitrary: d)
  case Nil
  then show ?case by simp
next
  case (Cons x xs)
  from apply_link_op_inv [OF Cons.prems, of sess x]
  have "link_ids_unique (apply_link_op sess x d)" and "at_most_one_active (apply_link_op sess x d)"
    by simp_all
  with Cons.IH show ?case by (simp add: Let_def)
qed

theorem single_active_link_invariant_witness:
  "link_ids_unique empty_db \<and> at_most_one_active empty_db \<and>
   map (\<lambda>d. map link_is_active (links d))
     (run_link_ops admin_session
        [GenerateLink ''tok-A'' sample_time, GenerateLink ''tok-B'' later_time,
         ToggleLink 1, ToggleLink 1, ToggleLink 7] empty_db) =
     [[True], [False, True], [True, False], [False, False], [False, False]] \<and>
   list_all at_most_one_active
     (run_link_ops admin_session
        [GenerateLink ''tok-A'' sample_time, GenerateLink ''tok-B'' later_time,
         ToggleLink 1, ToggleLink 1, ToggleLink 7] empty_db)"
proof -
  have u: "link_ids_unique empty_db"
    by (simp add: link_ids_unique_def empty_db_def)
  have a: "at_most_one_active empty_db"
    by (simp add: at_most_one_active_def active_links_def empty_db_def)
  have t: "map (\<lambda>d. map link_is_active (links d))
     (run_link_ops admin_session
        [GenerateLink ''tok-A'' sample_time, GenerateLink ''tok-B'' later_time,
         ToggleLink 1, ToggleLink 1, ToggleLink 7] empty_db) =
     [[True], [False, True], [True, False], [False, False], [False, False]]"
    by (simp add: generate_link_def toggle_link_status_def login_required_def admin_session_def
        empty_db_def deactivate_all_def set_active_def next_id_def Let_def sqlite_max_int_def)
  from single_active_link_invariant [OF u a]
  have "list_all at_most_one_active
     (run_link_ops admin_session
        [GenerateLink ''tok-A'' sample_time, GenerateLink ''tok-B'' later_time,
         ToggleLink 1, ToggleLink 1, ToggleLink 7] empty_db)"
    unfolding list_all_iff by blast
  with u a t show ?thesis by blast
qed

lemma find_None_filter: "find P xs = None \<longleftrightarrow> filter P xs = []"
  by (induction xs) simp_all

lemma find_Some_filter: "filter P xs \<noteq> [] \<Longrightarrow> \<exists>x. find P xs = Some x"
  using find_None_filter [of P xs] by (cases "find P xs") simp_all







lemma tokens_deactivate_all: "map link_token (deactivate_all ls) = map link_token ls"
  by (simp add: deactivate_all_def)

text \<open>
  Claim C6. For a logged-in admin and a token not yet in the table, \<open>generate_link\<close>
  marks every existing link inactive and appends exactly one link, with that token, a
  new primary key and \<open>is_active = true\<close>; a token already in the table changes
  nothing. Generating A and then B leaves A inactive and B active.
\<close>

theorem generate_link_rotates:
  assumes "admin_logged_in sess"
  shows "(tok \<notin> set (map link_token (links d)) \<longrightarrow>
            generate_link sess tok now d =
              (d\<lparr>links := map (\<lambda>l. l\<lparr>link_is_active := False\<rparr>) (links d) @
                   [\<lparr>link_id = next_id (map link_id (links d)), link_token = tok,
                     link_is_active = True, link_created_at = now\<rparr>]\<rparr>,
               respond [(''New access link generated and activated. Previous links have been deactivated.'', ''success'')]
                 (Redirect EP_admin_dashboard)) \<and>
            next_id (map link_id (links d)) \<notin> set (map link_id (links d))) \<and>
         (tok \<in> set (map link_token (links d)) \<longrightarrow>
            generate_link sess tok now d = (d, respond [] ServerError)) \<and>
         (tok \<notin> set (map link_token (links d)) \<and> tok' \<notin> set (map link_token (links d)) \<and>
          tok' \<noteq> tok \<longrightarrow>
            map (\<lambda>l. (link_token l, link_is_active l))
              (links (fst (generate_link sess tok' now' (fst (generate_link sess tok now d))))) =
            map (\<lambda>l. (link_token l, False)) (links d) @ [(tok, False), (tok', True)])"
proof -
  let ?ls = "map (\<lambda>l. l\<lparr>link_is_active := False\<rparr>) (links d)"
  let ?new = "\<lparr>link_id = next_id (map link_id (links d)), link_token = tok,
                link_is_active = True, link_created_at = now\<rparr>"
  have ok: "generate_link sess tok now d =
              (d\<lparr>links := ?ls @ [?new]\<rparr>,
               respond [(''New access link generated and activated. Previous links have been deactivated.'', ''success'')]
                 (Redirect EP_admin_dashboard))"
    if "tok \<notin> set (map link_token (links d))"
    using that assms
    unfolding generate_link_def login_required_def Let_def tokens_deactivate_all
      ids_deactivate_all
    by (simp add: deactivate_all_def)
  have dup: "generate_link sess tok now d = (d, respond [] ServerError)"
    if "tok \<in> set (map link_token (links d))"
    using that assms
    unfolding generate_link_def login_required_def Let_def tokens_deactivate_all
    by simp
  have two: "map (\<lambda>l. (link_token l, link_is_active l))
              (links (fst (generate_link sess tok' now' (fst (generate_link sess tok now d))))) =
            map (\<lambda>l. (link_token l, False)) (links d) @ [(tok, False), (tok', True)]"
    if a: "tok \<notin> set (map link_token (links d))" and b: "tok' \<notin> set (map link_token (links d))"
      and c: "tok' \<noteq> tok"
  proof -
    let ?d1 = "d\<lparr>links := ?ls @ [?new]\<rparr>"
    have "tok' \<notin> set (map link_token (deactivate_all (links ?d1)))"
      unfolding tokens_deactivate_all using b c by (simp add: o_def)
    then have "links (fst (generate_link sess tok' now' ?d1)) =
        deactivate_all (links ?d1) @
          [\<lparr>link_id = next_id (map link_id (deactivate_all (links ?d1))), link_token = tok',
            link_is_active = True, link_created_at = now'\<rparr>]"
      using assms unfolding generate_link_def login_required_def Let_def by simp
    then show ?thesis
      by (simp add: ok [OF a] deactivate_all_def o_def)
  qed
  from ok dup two next_id_fresh [of "map link_id (links d)"] show ?thesis by blast
qed



theorem generate_link_rotates_witness:
  "admin_logged_in admin_session \<and>
   links (fst (generate_link admin_session ''tok-C'' later_time sample_db)) =
     [link_A, link_B\<lparr>link_is_active := False\<rparr>,
      \<lparr>link_id = 3, link_token = ''tok-C'', link_is_active = True,
        link_created_at = later_time\<rparr>] \<and>
   generate_link admin_session ''tok-A'' later_time sample_db = (sample_db, respond [] ServerError) \<and>
   map (\<lambda>l. (link_token l, link_is_active l))
     (links (fst (generate_link admin_session ''B'' later_time
        (fst (generate_link admin_session ''A'' sample_time empty_db))))) =
     [(''A'', False), (''B'', True)]"
proof -
  have s: "admin_logged_in admin_session" by (simp add: admin_session_def)
  have c: "''tok-C'' \<notin> set (map link_token (links sample_db))"
    by (simp add: sample_db_def link_A_def link_B_def)
  have a: "''tok-A'' \<in> set (map link_token (links sample_db))"
    by (simp add: sample_db_def link_A_def link_B_def)
  have e: "''A'' \<notin> set (map link_token (links empty_db)) \<and>
           ''B'' \<notin> set (map link_token (links empty_db)) \<and> ''B'' \<noteq> ''A''"
    by (simp add: empty_db_def)
  have n: "next_id (map link_id (links sample_db)) = 3"
    by (simp add: next_id_def sample_db_def link_A_def link_B_def)
  from generate_link_rotates [OF s, of "''tok-C''" sample_db later_time "''tok-C''" later_time] c
  have "generate_link admin_session ''tok-C'' later_time sample_db =
      (sample_db\<lparr>links := map (\<lambda>l. l\<lparr>link_is_active := False\<rparr>) (links sample_db) @
          [\<lparr>link_id = next_id (map link_id (links sample_db)), link_token = ''tok-C'',
            link_is_active = True, link_created_at = later_time\<rparr>]\<rparr>,
       respond [(''New access link generated and activated. Previous links have been deactivated.'', ''success'')]
         (Redirect EP_admin_dashboard))"
    by blast
  then have r1: "links (fst (generate_link admin_session ''tok-C'' later_time sample_db)) =
     [link_A, link_B\<lparr>link_is_active := False\<rparr>,
      \<lparr>link_id = 3, link_token = ''tok-C'', link_is_active = True,
        link_created_at = later_time\<rparr>]"
    by (simp add: n) (simp add: sample_db_def link_A_def link_B_def)
  from generate_link_rotates [OF s, of "''tok-A''" sample_db later_time "''tok-A''" later_time] a
  have r2: "generate_link admin_session ''tok-A'' later_time sample_db =
      (sample_db, respond [] ServerError)"
    by blast
  from generate_link_rotates [OF s, of "''A''" empty_db sample_time "''B''" later_time] e
  have r3: "map (\<lambda>l. (link_token l, link_is_active l))
     (links (fst (generate_link admin_session ''B'' later_time
        (fst (generate_link admin_session ''A'' sample_time empty_db))))) =
     map (\<lambda>l. (link_token l, False)) (links empty_db) @ [(''A'', False), (''B'', True)]"
    by blast
  from s r1 r2 r3 show ?thesis by (simp add: empty_db_def)
qed

text \<open>
  Claim C2. When no active link carries the token, a request to \<open>register\<close> (POST
  included) answers with the invalid-link page and status 404 and leaves the database,
  hence the attendee table, as it was. The lookup reads the table as it is when the
  request runs.
\<close>

theorem register_without_active_link:
  assumes "filter (\<lambda>l. link_token l = tok \<and> link_is_active l) (links d) = []"
  shows "register tok meth form now d = (d, respond [] InvalidLinkPage) \<and>
         status_code (resp_view (snd (register tok meth form now d))) = 404 \<and>
         attendees (fst (register tok meth form now d)) = attendees d"
proof -
  from assms have "find (\<lambda>l. link_token l = tok \<and> link_is_active l) (links d) = None"
    by (simp add: find_None_filter)
  then have "register tok meth form now d = (d, respond [] InvalidLinkPage)"
    by (simp add: register_def)
  then show ?thesis by (simp add: respond_def)
qed

theorem register_without_active_link_witness:
  "toggle_link_status admin_session 2 sample_db =
     (sample_db\<lparr>links := [link_A, link_B\<lparr>link_is_active := False\<rparr>]\<rparr>,
      respond [(''Link tok-B... has been deactivated.'', ''warning'')] (Redirect EP_admin_dashboard)) \<and>
   fst (register ''tok-B'' POST sample_form later_time sample_db) \<noteq> sample_db \<and>
   register ''tok-B'' POST sample_form later_time
       (sample_db\<lparr>links := [link_A, link_B\<lparr>link_is_active := False\<rparr>]\<rparr>) =
     (sample_db\<lparr>links := [link_A, link_B\<lparr>link_is_active := False\<rparr>]\<rparr>, respond [] InvalidLinkPage)"
proof -
  let ?d = "sample_db\<lparr>links := [link_A, link_B\<lparr>link_is_active := False\<rparr>]\<rparr>"
  have t: "toggle_link_status admin_session 2 sample_db =
     (?d, respond [(''Link tok-B... has been deactivated.'', ''warning'')] (Redirect EP_admin_dashboard))"
    by (simp add: toggle_link_status_def login_required_def admin_session_def sample_db_def
        link_A_def link_B_def set_active_def sqlite_max_int_def)
  have before: "fst (register ''tok-B'' POST sample_form later_time sample_db) \<noteq> sample_db"
    by (simp add: register_def sample_db_def link_A_def link_B_def sample_form_def py_not_def
        sample_attendees_def)
  have h: "filter (\<lambda>l. link_token l = ''tok-B'' \<and> link_is_active l) (links ?d) = []"
    by (simp add: link_A_def link_B_def)
  from register_without_active_link [OF h, of POST sample_form later_time] t before
  show ?thesis by blast
qed

text \<open>
  Claim C4. While an active link carries the token, a POST whose name or role is missing
  or empty leaves the database unchanged, flashes the error and redirects to the
  registration URL of the same token, where a GET shows the form for that token.
\<close>

theorem register_missing_field:
  assumes "filter (\<lambda>l. link_token l = tok \<and> link_is_active l) (links d) \<noteq> []"
    and "py_not (form_name form) \<or> py_not (form_role form)"
  shows "register tok POST form now d =
           (d, respond [(''Name and Role are required fields.'', ''danger'')]
                 (Redirect (EP_register tok))) \<and>
         register tok GET form' now' d = (d, respond [] (RegisterPage tok roles))"
proof -
  from find_Some_filter [OF assms(1)] obtain l
    where l: "find (\<lambda>l. link_token l = tok \<and> link_is_active l) (links d) = Some l" ..
  have get: "register tok GET form' now' d = (d, respond [] (RegisterPage tok roles))"
    using l by (simp add: register_def)
  have post: "register tok POST form now d =
           (d, respond [(''Name and Role are required fields.'', ''danger'')]
                 (Redirect (EP_register tok)))"
    using l assms(2) by (auto simp: register_def py_not_def split: option.splits)
  from get post show ?thesis by simp
qed

theorem register_missing_field_witness:
  "register ''tok-B'' POST (sample_form\<lparr>form_name := Some []\<rparr>) later_time sample_db =
     (sample_db, respond [(''Name and Role are required fields.'', ''danger'')]
        (Redirect (EP_register ''tok-B''))) \<and>
   register ''tok-B'' POST (sample_form\<lparr>form_role := None\<rparr>) later_time sample_db =
     (sample_db, respond [(''Name and Role are required fields.'', ''danger'')]
        (Redirect (EP_register ''tok-B''))) \<and>
   register ''tok-B'' GET sample_form later_time sample_db =
     (sample_db, respond [] (RegisterPage ''tok-B'' roles))"
proof -
  have h: "filter (\<lambda>l. link_token l = ''tok-B'' \<and> link_is_active l) (links sample_db) \<noteq> []"
    by (simp add: sample_db_def link_A_def link_B_def)
  have n: "py_not (form_name (sample_form\<lparr>form_name := Some []\<rparr>)) \<or>
           py_not (form_role (sample_form\<lparr>form_name := Some []\<rparr>))"
    by (simp add: py_not_def)
  have r: "py_not (form_name (sample_form\<lparr>form_role := None\<rparr>)) \<or>
           py_not (form_role (sample_form\<lparr>form_role := None\<rparr>))"
    by (simp add: py_not_def)
  from register_missing_field [OF h n, of later_time sample_form later_time]
    register_missing_field [OF h r, of later_time sample_form later_time]
  show ?thesis by blast
qed

text \<open>
  Claim C9. For a session without the flag, a POST to \<open>admin_login\<close> sets
  \<open>admin_logged_in\<close> exactly when the submitted username and password both equal the
  configured strings; on any mismatch the session is unchanged and the one message
  \<open>Invalid credentials. Please try again.\<close> is flashed, whichever field was wrong.
\<close>

theorem admin_login_credentials:
  assumes "\<not> admin_logged_in sess"
  shows "(admin_logged_in (fst (admin_login cfg POST username password sess)) \<longleftrightarrow>
            username = Some (ADMIN_USERNAME cfg) \<and> password = Some (ADMIN_PASSWORD cfg)) \<and>
         (\<not> (username = Some (ADMIN_USERNAME cfg) \<and> password = Some (ADMIN_PASSWORD cfg)) \<longrightarrow>
            admin_login cfg POST username password sess =
              (sess, respond [(''Invalid credentials. Please try again.'', ''danger'')] LoginPage))"
  using assms by (simp add: admin_login_def)

theorem admin_login_credentials_witness:
  "\<not> admin_logged_in anonymous \<and>
   admin_logged_in (fst (admin_login sample_config POST (Some ''admin'') (Some ''password'') anonymous)) \<and>
   admin_login sample_config POST (Some ''admin'') (Some ''Password'') anonymous =
     (anonymous, respond [(''Invalid credentials. Please try again.'', ''danger'')] LoginPage) \<and>
   admin_login sample_config POST (Some ''root'') (Some ''password'') anonymous =
     (anonymous, respond [(''Invalid credentials. Please try again.'', ''danger'')] LoginPage) \<and>
   admin_login sample_config POST None None anonymous =
     (anonymous, respond [(''Invalid credentials. Please try again.'', ''danger'')] LoginPage)"
proof -
  have a: "\<not> admin_logged_in anonymous" by (simp add: anonymous_def)
  have c: "ADMIN_USERNAME sample_config = ''admin''" "ADMIN_PASSWORD sample_config = ''password''"
    by (simp_all add: sample_config_def)
  from admin_login_credentials [OF a, of sample_config "Some ''admin''" "Some ''password''"]
  have r1: "admin_logged_in (fst (admin_login sample_config POST (Some ''admin'') (Some ''password'') anonymous))"
    by (simp add: c)
  from admin_login_credentials [OF a, of sample_config "Some ''admin''" "Some ''Password''"]
  have r2: "admin_login sample_config POST (Some ''admin'') (Some ''Password'') anonymous =
     (anonymous, respond [(''Invalid credentials. Please try again.'', ''danger'')] LoginPage)"
    by (simp add: c)
  from admin_login_credentials [OF a, of sample_config "Some ''root''" "Some ''password''"]
  have r3: "admin_login sample_config POST (Some ''root'') (Some ''password'') anonymous =
     (anonymous, respond [(''Invalid credentials. Please try again.'', ''danger'')] LoginPage)"
    by (simp add: c)
  from admin_login_credentials [OF a, of sample_config None None]
  have r4: "admin_login sample_config POST None None anonymous =
     (anonymous, respond [(''Invalid credentials. Please try again.'', ''danger'')] LoginPage)"
    by simp
  from a r1 r2 r3 r4 show ?thesis by blast
qed

text \<open>
  Claim C10. With the session flag set, every request to \<open>admin_login\<close>, of either
  method and with any submitted fields, redirects to the dashboard, flashes nothing and
  leaves the session as it was; the answer does not depend on the credentials.
\<close>

theorem admin_login_already_logged_in:
  assumes "admin_logged_in sess"
  shows "admin_login cfg meth username password sess =
           (sess, respond [] (Redirect EP_admin_dashboard))"
  using assms by (simp add: admin_login_def)

theorem admin_login_already_logged_in_witness:
  "admin_logged_in admin_session \<and>
   admin_login sample_config POST (Some ''admin'') (Some ''wrong'') admin_session =
     (admin_session, respond [] (Redirect EP_admin_dashboard)) \<and>
   admin_login sample_config GET None None admin_session =
     (admin_session, respond [] (Redirect EP_admin_dashboard))"
proof -
  have a: "admin_logged_in admin_session" by (simp add: admin_session_def)
  from a admin_login_already_logged_in [OF a, of sample_config POST "Some ''admin''" "Some ''wrong''"]
    admin_login_already_logged_in [OF a, of sample_config GET None None]
  show ?thesis by blast
qed

lemma session_flag_reset: "\<not> admin_logged_in sess \<Longrightarrow> sess\<lparr>admin_logged_in := False\<rparr> = sess"
  by (cases sess) simp

text \<open>
  Claim C3, as stated, fails for logout: the route has no guard, so without the session
  flag the handler still runs and answers with its own message, not with the warning of
  the guard.
\<close>

theorem logout_not_guarded_counterexample:
  "\<not> admin_logged_in anonymous \<and>
   snd (handle_admin ReqLogout (empty_db, anonymous)) =
     respond [(''You have been logged out.'', ''info'')] (Redirect EP_admin_login) \<and>
   snd (handle_admin ReqLogout (empty_db, anonymous)) \<noteq> guard_response"
  by (simp add: anonymous_def admin_logout_def guard_response_def respond_def)

text \<open>
  Claim C3, amended. Without the session flag, each guarded operation (dashboard,
  generate-link, toggle-link, export-csv) is not run: database and session are
  unchanged and the answer is the warning \<open>Please log in to access this page.\<close>
  with a redirect to the login view. Logout carries no guard: it runs, leaves database
  and session unchanged, flashes \<open>You have been logged out.\<close> and redirects to the
  login view.
\<close>

theorem guarded_operations_require_login:
  assumes "\<not> admin_logged_in sess"
  shows "(req \<noteq> ReqLogout \<longrightarrow> handle_admin req (d, sess) = ((d, sess), guard_response)) \<and>
         handle_admin ReqLogout (d, sess) =
           ((d, sess), respond [(''You have been logged out.'', ''info'')] (Redirect EP_admin_login)) \<and>
         resp_view guard_response = Redirect EP_admin_login \<and>
         flashes guard_response = [(''Please log in to access this page.'', ''warning'')]"
proof -
  have guarded: "handle_admin req (d, sess) = ((d, sess), guard_response)" if "req \<noteq> ReqLogout"
    using that assms
    by (cases req)
      (simp_all add: admin_dashboard_def generate_link_def toggle_link_status_def export_csv_def
        login_required_def)
  have logout: "handle_admin ReqLogout (d, sess) =
      ((d, sess), respond [(''You have been logged out.'', ''info'')] (Redirect EP_admin_login))"
    using session_flag_reset [OF assms] by (simp add: admin_logout_def)
  from guarded logout show ?thesis by (simp add: guard_response_def respond_def)
qed

theorem guarded_operations_require_login_witness:
  "\<not> admin_logged_in anonymous \<and>
   handle_admin (ReqDashboard (Some ''name'') (Some ''asc'')) (sample_db, anonymous) =
     ((sample_db, anonymous), guard_response) \<and>
   handle_admin (ReqGenerateLink ''tok-C'' later_time) (sample_db, anonymous) =
     ((sample_db, anonymous), guard_response) \<and>
   handle_admin (ReqToggleLink 2) (sample_db, anonymous) = ((sample_db, anonymous), guard_response) \<and>
   handle_admin ReqExportCsv (sample_db, anonymous) = ((sample_db, anonymous), guard_response) \<and>
   fst (handle_admin (ReqToggleLink 2) (sample_db, admin_session)) \<noteq> (sample_db, admin_session)"
proof -
  have a: "\<not> admin_logged_in anonymous" by (simp add: anonymous_def)
  have run: "fst (handle_admin (ReqToggleLink 2) (sample_db, admin_session)) \<noteq>
      (sample_db, admin_session)"
    by (simp add: toggle_link_status_def login_required_def admin_session_def sample_db_def
        link_A_def link_B_def set_active_def sqlite_max_int_def)
  from a run
    guarded_operations_require_login [OF a, of "ReqDashboard (Some ''name'') (Some ''asc'')" sample_db]
    guarded_operations_require_login [OF a, of "ReqGenerateLink ''tok-C'' later_time" sample_db]
    guarded_operations_require_login [OF a, of "ReqToggleLink 2" sample_db]
    guarded_operations_require_login [OF a, of ReqExportCsv sample_db]
  show ?thesis by simp
qed

lemma sortable_column_defined:
  "c \<in> set sortable_columns \<Longrightarrow> \<exists>col. attendee_column c = Some col"
  by (auto simp: sortable_columns_def attendee_column_def)

lemma timestamp_sortable: "''timestamp'' \<in> set sortable_columns"
  by (simp add: sortable_columns_def)

text \<open>
  Claim C7. A \<open>sort_by\<close> outside name, role, group, timestamp gives the same response
  as \<open>sort_by = timestamp\<close>, and as an absent \<open>sort_by\<close>; an \<open>order\<close> other than
  \<open>asc\<close> and \<open>desc\<close> gives the same attendee rows, links and active link as
  \<open>order = desc\<close>, and as an absent \<open>order\<close>. For a logged-in admin the listing is
  always produced.
\<close>

theorem admin_dashboard_fallbacks:
  "(sb \<notin> set sortable_columns \<longrightarrow>
      admin_dashboard sess (Some sb) ord d = admin_dashboard sess (Some ''timestamp'') ord d \<and>
      admin_dashboard sess (Some sb) ord d = admin_dashboard sess None ord d) \<and>
   (ordr \<noteq> ''asc'' \<and> ordr \<noteq> ''desc'' \<longrightarrow>
      fst (admin_dashboard sess srt (Some ordr) d) = fst (admin_dashboard sess srt (Some ''desc'') d) \<and>
      dashboard_data (snd (admin_dashboard sess srt (Some ordr) d)) =
        dashboard_data (snd (admin_dashboard sess srt (Some ''desc'') d)) \<and>
      dashboard_data (snd (admin_dashboard sess srt (Some ordr) d)) =
        dashboard_data (snd (admin_dashboard sess srt None d))) \<and>
   (admin_logged_in sess \<longrightarrow> dashboard_data (snd (admin_dashboard sess srt ord d)) \<noteq> None)"
proof -
  have sb: "admin_dashboard sess (Some sb) ord d = admin_dashboard sess (Some ''timestamp'') ord d"
    "admin_dashboard sess (Some sb) ord d = admin_dashboard sess None ord d"
    if "sb \<notin> set sortable_columns"
    using that timestamp_sortable by (simp_all add: admin_dashboard_def Let_def)
  define sort_by where
    "sort_by = (let s = (case srt of None \<Rightarrow> ''timestamp'' | Some s \<Rightarrow> s)
                in if s \<notin> set sortable_columns then ''timestamp'' else s)"
  have "sort_by \<in> set sortable_columns"
    using timestamp_sortable by (simp add: sort_by_def Let_def)
  then obtain col where col: "attendee_column sort_by = Some col"
    using sortable_column_defined by blast
  have unfold: "admin_dashboard sess srt x d =
      (if \<not> admin_logged_in sess then (d, guard_response)
       else (d, respond [] (DashboardPage
               \<lparr>ctx_attendees =
                  (if (case x of None \<Rightarrow> ''desc'' | Some s \<Rightarrow> s) = ''asc''
                   then order_by (asc col) (attendees d)
                   else order_by (desc col) (attendees d)),
                ctx_links = order_by (desc (\<lambda>l. Stamp (link_created_at l))) (links d),
                ctx_active_link = find link_is_active (links d),
                ctx_sort_by = sort_by,
                ctx_order = (case x of None \<Rightarrow> ''desc'' | Some s \<Rightarrow> s)\<rparr>)))" for x
    using col by (simp add: admin_dashboard_def login_required_def sort_by_def Let_def)
  have ord: "fst (admin_dashboard sess srt (Some ordr) d) =
        fst (admin_dashboard sess srt (Some ''desc'') d)"
      "dashboard_data (snd (admin_dashboard sess srt (Some ordr) d)) =
        dashboard_data (snd (admin_dashboard sess srt (Some ''desc'') d))"
      "dashboard_data (snd (admin_dashboard sess srt (Some ordr) d)) =
        dashboard_data (snd (admin_dashboard sess srt None d))"
    if "ordr \<noteq> ''asc''" "ordr \<noteq> ''desc''"
    using that by (simp_all add: unfold respond_def guard_response_def)
  have some: "dashboard_data (snd (admin_dashboard sess srt ord d)) \<noteq> None"
    if "admin_logged_in sess"
    using that by (simp add: unfold respond_def)
  from sb ord some show ?thesis by blast
qed


lemma sample_by_time_desc:
  "order_by (desc (\<lambda>a. Stamp (att_timestamp a))) sample_attendees =
     [sample_attendees ! 1, sample_attendees ! 2, sample_attendees ! 0]"
  by (simp add: order_by_def desc_def sample_attendees_def sample_time_def later_time_def
      dt_key_def)

theorem admin_dashboard_fallbacks_witness:
  "''id'' \<notin> set sortable_columns \<and> ''up'' \<noteq> ''asc'' \<and> ''up'' \<noteq> ''desc'' \<and>
   admin_logged_in admin_session \<and>
   admin_dashboard admin_session (Some ''id'') (Some ''asc'') sample_db =
     admin_dashboard admin_session (Some ''timestamp'') (Some ''asc'') sample_db \<and>
   dashboard_data (snd (admin_dashboard admin_session (Some ''name'') (Some ''up'') sample_db)) =
     dashboard_data (snd (admin_dashboard admin_session (Some ''name'') (Some ''desc'') sample_db)) \<and>
   dashboard_data (snd (admin_dashboard admin_session (Some ''name'') (Some ''up'') sample_db)) \<noteq> None \<and>
   map_option (\<lambda>(rows, ls, act). (map att_id rows, act))
     (dashboard_data (snd (admin_dashboard admin_session (Some ''id'') (Some ''up'') sample_db))) =
     Some ([2, 3, 1], Some link_B)"
proof -
  have h1: "''id'' \<notin> set sortable_columns" by (simp add: sortable_columns_def)
  have h2: "''up'' \<noteq> ''asc'' \<and> ''up'' \<noteq> ''desc''" by simp
  have h3: "admin_logged_in admin_session" by (simp add: admin_session_def)
  note t1 = admin_dashboard_fallbacks
    [where sb = "''id''" and sess = admin_session and ord = "Some ''asc''" and d = sample_db
       and ordr = "''up''" and srt = "Some ''name''"]
  note t2 = admin_dashboard_fallbacks
    [where sb = "''id''" and sess = admin_session and ord = "Some ''desc''" and d = sample_db
       and ordr = "''up''" and srt = "Some ''id''"]
  note t3 = admin_dashboard_fallbacks
    [where sb = "''id''" and sess = admin_session and ord = "Some ''up''" and d = sample_db
       and ordr = "''up''" and srt = "Some ''name''"]
  from t1 h1 have r1: "admin_dashboard admin_session (Some ''id'') (Some ''asc'') sample_db =
     admin_dashboard admin_session (Some ''timestamp'') (Some ''asc'') sample_db"
    by blast
  from t1 h2 have r2:
    "dashboard_data (snd (admin_dashboard admin_session (Some ''name'') (Some ''up'') sample_db)) =
     dashboard_data (snd (admin_dashboard admin_session (Some ''name'') (Some ''desc'') sample_db))"
    by blast
  from t3 h3 have r3:
    "dashboard_data (snd (admin_dashboard admin_session (Some ''name'') (Some ''up'') sample_db)) \<noteq> None"
    by blast
  from t2 h1 h2 have
    "dashboard_data (snd (admin_dashboard admin_session (Some ''id'') (Some ''up'') sample_db)) =
     dashboard_data (snd (admin_dashboard admin_session (Some ''timestamp'') (Some ''desc'') sample_db))"
    by metis
  also have "map_option (\<lambda>(rows, ls, act). (map att_id rows, act))
      (dashboard_data (snd (admin_dashboard admin_session (Some ''timestamp'') (Some ''desc'') sample_db))) =
     Some ([2, 3, 1], Some link_B)"
    by (simp add: admin_dashboard_def login_required_def admin_session_def sortable_columns_def
        attendee_column_def respond_def Let_def sample_db_def sample_by_time_desc)
      (simp add: sample_attendees_def link_A_def link_B_def)
  finally have r4: "map_option (\<lambda>(rows, ls, act). (map att_id rows, act))
     (dashboard_data (snd (admin_dashboard admin_session (Some ''id'') (Some ''up'') sample_db))) =
     Some ([2, 3, 1], Some link_B)" .
  from h1 h2 h3 r1 r2 r3 r4 show ?thesis by blast
qed

section \<open>Properties of the CSV export\<close>

subsection \<open>Ordering\<close>

lemma mset_insort_by: "mset (insort_by le x xs) = add_mset x (mset xs)"
  by (induction xs) simp_all

lemma mset_order_by: "mset (order_by le xs) = mset xs"
  by (induction xs) (simp_all add: order_by_def mset_insort_by)

lemma set_insort_by: "set (insort_by le x xs) = insert x (set xs)"
  by (induction xs) auto

lemma sorted_insort_by:
  assumes total: "\<And>a b. le a b \<or> le b a"
    and trans: "\<And>a b c. le a b \<Longrightarrow> le b c \<Longrightarrow> le a c"
  shows "sorted_wrt le xs \<Longrightarrow> sorted_wrt le (insort_by le x xs)"
proof (induction xs)
  case Nil
  then show ?case by simp
next
  case (Cons y ys)
  show ?case
  proof (cases "le x y")
    case True
    with Cons.prems trans show ?thesis by auto
  next
    case False
    with total have "le y x" by blast
    with Cons False show ?thesis by (auto simp: set_insort_by)
  qed
qed

lemma sorted_order_by:
  assumes total: "\<And>a b. le a b \<or> le b a"
    and trans: "\<And>a b c. le a b \<Longrightarrow> le b c \<Longrightarrow> le a c"
  shows "sorted_wrt le (order_by le xs)"
proof (induction xs)
  case Nil
  show ?case by (simp add: order_by_def)
next
  case (Cons x xs)
  have "order_by le (x # xs) = insort_by le x (order_by le xs)"
    by (simp add: order_by_def)
  with Cons sorted_insort_by [of le, OF total trans] show ?case by simp
qed

lemma export_rows_sorted:
  "sorted_wrt (\<lambda>a b. dt_key (att_timestamp b) \<le> dt_key (att_timestamp a)) (export_rows d)"
proof -
  have eq: "desc (\<lambda>a. Stamp (att_timestamp a)) =
      (\<lambda>a b. dt_key (att_timestamp b) \<le> dt_key (att_timestamp a))"
    by (simp add: desc_def fun_eq_iff)
  show ?thesis
    unfolding export_rows_def eq
  proof (rule sorted_order_by)
    fix a b :: attendee
    show "dt_key (att_timestamp b) \<le> dt_key (att_timestamp a) \<or>
          dt_key (att_timestamp a) \<le> dt_key (att_timestamp b)"
      by (rule linear)
  next
    fix a b c :: attendee
    assume "dt_key (att_timestamp b) \<le> dt_key (att_timestamp a)"
      and "dt_key (att_timestamp c) \<le> dt_key (att_timestamp b)"
    then show "dt_key (att_timestamp c) \<le> dt_key (att_timestamp a)"
      by (rule order_trans [rotated])
  qed
qed

subsection \<open>Decimal digits and the timestamp format\<close>

lemma str_nat_small: "n < 10 \<Longrightarrow> str_nat n = [digit_char n]"
  by simp

lemma str_nat_step: "10 \<le> n \<Longrightarrow> str_nat n = str_nat (n div 10) @ [digit_char (n mod 10)]"
  by simp

declare str_nat.simps [simp del]

lemma digit_char_mod: "digit_char (n mod 10) = digit_char n"
  by (simp add: digit_char_def)

lemma digit_char_0: "digit_char 0 = CHR ''0''"
  by (simp add: digit_char_def)

lemma str_nat_d1: "n < 10 \<Longrightarrow> str_nat n = [digit_char n]"
  by (rule str_nat_small)

lemma str_nat_d2:
  assumes "10 \<le> n" and "n < 100"
  shows "str_nat n = [digit_char (n div 10), digit_char n]"
proof -
  from assms have "n div 10 < 10" by simp
  then have "str_nat (n div 10) = [digit_char (n div 10)]" by (rule str_nat_d1)
  with str_nat_step [OF assms(1)] show ?thesis by (simp add: digit_char_mod)
qed

lemma str_nat_d3:
  assumes "100 \<le> n" and "n < 1000"
  shows "str_nat n = [digit_char (n div 100), digit_char (n div 10), digit_char n]"
proof -
  from assms have "10 \<le> n div 10" "n div 10 < 100" "10 \<le> n" by simp_all
  from str_nat_d2 [OF this(1,2)]
  have "str_nat (n div 10) = [digit_char (n div 10 div 10), digit_char (n div 10)]" .
  moreover have "n div 10 div 10 = n div 100" by (simp add: div_mult2_eq [symmetric])
  ultimately show ?thesis
    using str_nat_step [OF \<open>10 \<le> n\<close>] by (simp add: digit_char_mod)
qed

lemma str_nat_d4:
  assumes "1000 \<le> n" and "n < 10000"
  shows "str_nat n =
    [digit_char (n div 1000), digit_char (n div 100), digit_char (n div 10), digit_char n]"
proof -
  from assms have "100 \<le> n div 10" "n div 10 < 1000" "10 \<le> n" by simp_all
  from str_nat_d3 [OF this(1,2)]
  have "str_nat (n div 10) =
      [digit_char (n div 10 div 100), digit_char (n div 10 div 10), digit_char (n div 10)]" .
  moreover have "n div 10 div 10 = n div 100" "n div 10 div 100 = n div 1000"
    by (simp_all add: div_mult2_eq [symmetric])
  ultimately show ?thesis
    using str_nat_step [OF \<open>10 \<le> n\<close>] by (simp add: digit_char_mod)
qed

lemma str_nat_2: "n < 100 \<Longrightarrow> zero_pad 2 (str_nat n) = [digit_char (n div 10), digit_char n]"
proof (cases "n < 10")
  case True
  then show ?thesis by (simp add: str_nat_d1 zero_pad_def digit_char_0)
next
  case False
  assume "n < 100"
  with False show ?thesis by (simp add: str_nat_d2 zero_pad_def)
qed

lemma digit_char_digit: "digit_char n \<in> set ''0123456789''"
proof -
  have "n mod 10 < length ''0123456789''" by simp
  then have "''0123456789'' ! (n mod 10) \<in> set ''0123456789''" by (rule nth_mem)
  then show ?thesis by (simp only: digit_char_def)
qed

lemma shape_Nil: "shape [] = []"
  by (simp add: shape_def)

lemma shape_Cons:
  "shape (c # s) = (if c \<in> set ''0123456789'' then CHR ''9'' else c) # shape s"
  by (simp only: shape_def list.map)

lemma shape_digit: "shape (digit_char n # s) = CHR ''9'' # shape s"
  by (simp only: shape_Cons digit_char_digit if_True)

lemma shape_separators:
  "shape (CHR ''-'' # s) = CHR ''-'' # shape s"
  "shape (CHR '' '' # s) = CHR '' '' # shape s"
  "shape (CHR '':'' # s) = CHR '':'' # shape s"
  by (simp_all add: shape_Cons)

lemma strftime_digits:
  assumes "valid_datetime t" and "1000 \<le> dt_year t"
  shows "strftime t =
      [digit_char (dt_year t div 1000), digit_char (dt_year t div 100),
       digit_char (dt_year t div 10), digit_char (dt_year t), CHR ''-'',
       digit_char (dt_month t div 10), digit_char (dt_month t), CHR ''-'',
       digit_char (dt_day t div 10), digit_char (dt_day t), CHR '' '',
       digit_char (dt_hour t div 10), digit_char (dt_hour t), CHR '':'',
       digit_char (dt_minute t div 10), digit_char (dt_minute t), CHR '':'',
       digit_char (dt_second t div 10), digit_char (dt_second t)]"
proof -
  from assms have "dt_year t < 10000" "dt_month t < 100" "dt_day t < 100" "dt_hour t < 100"
    "dt_minute t < 100" "dt_second t < 100"
    by (simp_all add: valid_datetime_def)
  with assms(2) show ?thesis
    by (simp add: strftime_def str_nat_2 str_nat_d4)
qed

lemma strftime_shape:
  assumes "valid_datetime t" and "1000 \<le> dt_year t"
  shows "shape (strftime t) = ''9999-99-99 99:99:99''"
  by (simp only: strftime_digits [OF assms] shape_digit shape_separators shape_Nil)

subsection \<open>Records of the exported text\<close>

lemma count_records_plain:
  "CHR 0x22 \<notin> set s \<Longrightarrow> CHR 0x0A \<notin> set s \<Longrightarrow>
     count_records q (s @ rest) = count_records q rest"
  by (induction s) auto

lemma count_records_escaped:
  "count_records True
     (concat (map (\<lambda>c. if c = dquote then [dquote, dquote] else [c]) s) @ rest) =
   count_records True rest"
  by (induction s) (simp_all add: dquote_def)

lemma count_records_quoted:
  "count_records False (csv_quote s @ rest) = count_records False rest"
proof -
  have "count_records False (csv_quote s @ rest) =
      count_records True
        (concat (map (\<lambda>c. if c = dquote then [dquote, dquote] else [c]) s) @ (dquote # rest))"
    by (simp add: csv_quote_def dquote_def)
  also have "\<dots> = count_records True (dquote # rest)"
    by (rule count_records_escaped)
  also have "\<dots> = count_records False rest"
    by (simp add: dquote_def)
  finally show ?thesis .
qed

lemma plain_field:
  "\<not> needs_quoting s \<Longrightarrow> CHR 0x22 \<notin> set s \<and> CHR 0x0A \<notin> set s"
  by (auto simp: needs_quoting_def list_ex_iff csv_special_def)

lemma count_records_field:
  "count_records False (csv_field s @ rest) = count_records False rest"
proof (cases "needs_quoting s")
  case True
  then show ?thesis by (simp add: csv_field_def count_records_quoted)
next
  case False
  with plain_field [OF False] show ?thesis
    by (simp add: csv_field_def count_records_plain)
qed

lemma count_records_join:
  "count_records False (join_fields (map csv_field row) @ rest) = count_records False rest"
proof (induction row)
  case Nil
  show ?case by simp
next
  case (Cons f row)
  show ?case
  proof (cases row)
    case Nil
    then show ?thesis by (simp add: count_records_field)
  next
    case (Cons g row')
    have "count_records False (join_fields (map csv_field (f # row)) @ rest) =
        count_records False
          (csv_field f @ (CHR '','' # join_fields (map csv_field row) @ rest))"
      using Cons by simp
    also have "\<dots> = count_records False (CHR '','' # join_fields (map csv_field row) @ rest)"
      by (rule count_records_field)
    also have "\<dots> = count_records False (join_fields (map csv_field row) @ rest)"
      by simp
    finally show ?thesis using Cons.IH by simp
  qed
qed

lemma count_records_writerow:
  "count_records False (writerow row @ rest) = Suc (count_records False rest)"
proof (cases "row = [[]]")
  case True
  then show ?thesis by (simp add: writerow_def dquote_def)
next
  case False
  have "count_records False (writerow row @ rest) =
      count_records False (join_fields (map csv_field row) @ (CHR 0x0D # CHR 0x0A # rest))"
    using False by (simp add: writerow_def)
  also have "\<dots> = count_records False (CHR 0x0D # CHR 0x0A # rest)"
    by (rule count_records_join)
  finally show ?thesis by simp
qed

lemma count_records_rows:
  "count_records False (concat (map (\<lambda>a. writerow (f a)) rows)) = length rows"
  by (induction rows) (simp_all add: count_records_writerow)

lemma length_export_rows: "length (export_rows d) = length (attendees d)"
  using mset_order_by [of "desc (\<lambda>a. Stamp (att_timestamp a))" "attendees d"]
  by (metis export_rows_def size_mset)

lemma count_records_csv_body: "count_records False (csv_body d) = Suc (length (attendees d))"
  by (simp add: csv_body_def count_records_writerow count_records_rows length_export_rows)

lemma header_line:
  "writerow csv_header =
     ''ID,Name,Role,Group,Timestamp (UTC),Access Token Used'' @ [CHR 0x0D, CHR 0x0A]"
  by (simp add: writerow_def csv_header_def csv_field_def needs_quoting_def csv_special_def)

text \<open>
  Claim C8. For a logged-in admin, \<open>export_csv\<close> answers with an attachment whose
  text is the header line \<open>ID,Name,Role,Group,Timestamp (UTC),Access Token Used\<close>
  followed by one row per attendee: the rows are the attendee table reordered by
  timestamp, latest first, and the text holds one record more than the table has rows.
  For timestamps with a year of four digits, as the clock gives them, the fifth cell of
  each row is the timestamp as \<open>YYYY-MM-DD HH:MM:SS\<close>: the decimal digits of year,
  month, day, hour, minute and second, in that order, each padded with zeros.
\<close>

theorem export_csv_contents:
  assumes "admin_logged_in sess"
    and "\<forall>a \<in> set (attendees d).
           valid_datetime (att_timestamp a) \<and> 1000 \<le> dt_year (att_timestamp a)"
  shows "export_csv sess d =
           (d, respond [] (CsvAttachment ''attachment; filename=attendance_export.csv''
                 ''text/csv'' (csv_body d))) \<and>
         csv_body d =
           ''ID,Name,Role,Group,Timestamp (UTC),Access Token Used'' @ [CHR 0x0D, CHR 0x0A] @
           concat (map (\<lambda>a. writerow (attendee_row a)) (export_rows d)) \<and>
         mset (export_rows d) = mset (attendees d) \<and>
         sorted_wrt (\<lambda>a b. dt_key (att_timestamp b) \<le> dt_key (att_timestamp a)) (export_rows d) \<and>
         length (export_rows d) = length (attendees d) \<and>
         count_records False (csv_body d) = Suc (length (attendees d)) \<and>
         (\<forall>a \<in> set (export_rows d).
            attendee_row a ! 4 =
              [digit_char (dt_year (att_timestamp a) div 1000),
               digit_char (dt_year (att_timestamp a) div 100),
               digit_char (dt_year (att_timestamp a) div 10),
               digit_char (dt_year (att_timestamp a)), CHR ''-'',
               digit_char (dt_month (att_timestamp a) div 10),
               digit_char (dt_month (att_timestamp a)), CHR ''-'',
               digit_char (dt_day (att_timestamp a) div 10),
               digit_char (dt_day (att_timestamp a)), CHR '' '',
               digit_char (dt_hour (att_timestamp a) div 10),
               digit_char (dt_hour (att_timestamp a)), CHR '':'',
               digit_char (dt_minute (att_timestamp a) div 10),
               digit_char (dt_minute (att_timestamp a)), CHR '':'',
               digit_char (dt_second (att_timestamp a) div 10),
               digit_char (dt_second (att_timestamp a))] \<and>
            shape (attendee_row a ! 4) = ''9999-99-99 99:99:99'')"
proof -
  have resp: "export_csv sess d =
           (d, respond [] (CsvAttachment ''attachment; filename=attendance_export.csv''
                 ''text/csv'' (csv_body d)))"
    using assms(1) by (simp add: export_csv_def login_required_def)
  have body: "csv_body d =
           ''ID,Name,Role,Group,Timestamp (UTC),Access Token Used'' @ [CHR 0x0D, CHR 0x0A] @
           concat (map (\<lambda>a. writerow (attendee_row a)) (export_rows d))"
    unfolding csv_body_def header_line by simp
  have perm: "mset (export_rows d) = mset (attendees d)"
    by (simp add: export_rows_def mset_order_by)
  then have same: "set (export_rows d) = set (attendees d)"
    by (rule mset_eq_setD)
  have cell: "attendee_row a ! 4 = strftime (att_timestamp a)" for a
    by (simp add: attendee_row_def)
  have fmt: "\<forall>a \<in> set (export_rows d).
            attendee_row a ! 4 =
              [digit_char (dt_year (att_timestamp a) div 1000),
               digit_char (dt_year (att_timestamp a) div 100),
               digit_char (dt_year (att_timestamp a) div 10),
               digit_char (dt_year (att_timestamp a)), CHR ''-'',
               digit_char (dt_month (att_timestamp a) div 10),
               digit_char (dt_month (att_timestamp a)), CHR ''-'',
               digit_char (dt_day (att_timestamp a) div 10),
               digit_char (dt_day (att_timestamp a)), CHR '' '',
               digit_char (dt_hour (att_timestamp a) div 10),
               digit_char (dt_hour (att_timestamp a)), CHR '':'',
               digit_char (dt_minute (att_timestamp a) div 10),
               digit_char (dt_minute (att_timestamp a)), CHR '':'',
               digit_char (dt_second (att_timestamp a) div 10),
               digit_char (dt_second (att_timestamp a))] \<and>
            shape (attendee_row a ! 4) = ''9999-99-99 99:99:99''"
  proof
    fix a
    assume "a \<in> set (export_rows d)"
    with same assms(2) have v: "valid_datetime (att_timestamp a)"
      and y: "1000 \<le> dt_year (att_timestamp a)"
      by simp_all
    from strftime_digits [OF v y] strftime_shape [OF v y] cell [of a]
    show "attendee_row a ! 4 =
              [digit_char (dt_year (att_timestamp a) div 1000),
               digit_char (dt_year (att_timestamp a) div 100),
               digit_char (dt_year (att_timestamp a) div 10),
               digit_char (dt_year (att_timestamp a)), CHR ''-'',
               digit_char (dt_month (att_timestamp a) div 10),
               digit_char (dt_month (att_timestamp a)), CHR ''-'',
               digit_char (dt_day (att_timestamp a) div 10),
               digit_char (dt_day (att_timestamp a)), CHR '' '',
               digit_char (dt_hour (att_timestamp a) div 10),
               digit_char (dt_hour (att_timestamp a)), CHR '':'',
               digit_char (dt_minute (att_timestamp a) div 10),
               digit_char (dt_minute (att_timestamp a)), CHR '':'',
               digit_char (dt_second (att_timestamp a) div 10),
               digit_char (dt_second (att_timestamp a))] \<and>
            shape (attendee_row a ! 4) = ''9999-99-99 99:99:99''"
      by (simp only: simp_thms)
  qed
  from resp body perm export_rows_sorted [of d] length_export_rows [of d]
    count_records_csv_body [of d] fmt
  show ?thesis by blast
qed

lemma sample_export_rows:
  "export_rows sample_db = [sample_attendees ! 1, sample_attendees ! 2, sample_attendees ! 0]"
  by (simp add: export_rows_def sample_db_def sample_by_time_desc)

lemma sample_csv_text:
  "csv_body sample_db =
     ''ID,Name,Role,Group,Timestamp (UTC),Access Token Used'' @ [CHR 0x0D, CHR 0x0A] @
     ''2,'' @ [CHR 0x22] @ ''Smith, Ann'' @ [CHR 0x22] @ '',Leader,,2024-03-09 18:05:07,tok-B'' @
       [CHR 0x0D, CHR 0x0A] @
     ''3,'' @ [CHR 0x22] @ ''Al '' @ [CHR 0x22, CHR 0x22, CHR 0x0A, CHR 0x22, CHR 0x22] @ ''X'' @
       [CHR 0x22] @ '',Member,Choir,2024-03-09 07:45:30,tok-B'' @ [CHR 0x0D, CHR 0x0A] @
     ''1,Jo,Guest,,2024-03-09 07:05:07,tok-A'' @ [CHR 0x0D, CHR 0x0A]"
  by code_simp

theorem export_csv_contents_witness:
  "admin_logged_in admin_session \<and>
   valid_datetime sample_time \<and> valid_datetime later_time \<and>
   valid_datetime (sample_time\<lparr>dt_minute := 45, dt_second := 30\<rparr>) \<and>
   1000 \<le> dt_year sample_time \<and>
   map att_id (attendees sample_db) = [1, 2, 3] \<and>
   map att_id (export_rows sample_db) = [2, 3, 1] \<and>
   count_records False (csv_body sample_db) = 4 \<and>
   map (\<lambda>a. attendee_row a ! 4) (export_rows sample_db) =
     [''2024-03-09 18:05:07'', ''2024-03-09 07:45:30'', ''2024-03-09 07:05:07''] \<and>
   csv_body sample_db =
     ''ID,Name,Role,Group,Timestamp (UTC),Access Token Used'' @ [CHR 0x0D, CHR 0x0A] @
     ''2,'' @ [CHR 0x22] @ ''Smith, Ann'' @ [CHR 0x22] @ '',Leader,,2024-03-09 18:05:07,tok-B'' @
       [CHR 0x0D, CHR 0x0A] @
     ''3,'' @ [CHR 0x22] @ ''Al '' @ [CHR 0x22, CHR 0x22, CHR 0x0A, CHR 0x22, CHR 0x22] @ ''X'' @
       [CHR 0x22] @ '',Member,Choir,2024-03-09 07:45:30,tok-B'' @ [CHR 0x0D, CHR 0x0A] @
     ''1,Jo,Guest,,2024-03-09 07:05:07,tok-A'' @ [CHR 0x0D, CHR 0x0A]"
proof -
  have s: "admin_logged_in admin_session" by (simp add: admin_session_def)
  have v: "valid_datetime sample_time" "valid_datetime later_time"
    "valid_datetime (sample_time\<lparr>dt_minute := 45, dt_second := 30\<rparr>)"
    by (simp_all add: valid_datetime_def sample_time_def later_time_def)
  have y: "1000 \<le> dt_year sample_time" "1000 \<le> dt_year later_time"
    by (simp_all add: sample_time_def later_time_def)
  from v y have h: "\<forall>a \<in> set (attendees sample_db).
      valid_datetime (att_timestamp a) \<and> 1000 \<le> dt_year (att_timestamp a)"
    by (simp add: sample_db_def sample_attendees_def)
  have ids: "map att_id (attendees sample_db) = [1, 2, 3]"
    by (simp add: sample_db_def sample_attendees_def)
  have rows: "map att_id (export_rows sample_db) = [2, 3, 1]"
    by (simp add: sample_export_rows) (simp add: sample_attendees_def)
  note t = export_csv_contents [OF s h]
  from t have "count_records False (csv_body sample_db) = Suc (length (attendees sample_db))"
    by blast
  then have n: "count_records False (csv_body sample_db) = 4"
    by (simp add: sample_db_def sample_attendees_def)
  from t have "\<forall>a \<in> set (export_rows sample_db).
      attendee_row a ! 4 =
        [digit_char (dt_year (att_timestamp a) div 1000),
         digit_char (dt_year (att_timestamp a) div 100),
         digit_char (dt_year (att_timestamp a) div 10),
         digit_char (dt_year (att_timestamp a)), CHR ''-'',
         digit_char (dt_month (att_timestamp a) div 10),
         digit_char (dt_month (att_timestamp a)), CHR ''-'',
         digit_char (dt_day (att_timestamp a) div 10),
         digit_char (dt_day (att_timestamp a)), CHR '' '',
         digit_char (dt_hour (att_timestamp a) div 10),
         digit_char (dt_hour (att_timestamp a)), CHR '':'',
         digit_char (dt_minute (att_timestamp a) div 10),
         digit_char (dt_minute (att_timestamp a)), CHR '':'',
         digit_char (dt_second (att_timestamp a) div 10),
         digit_char (dt_second (att_timestamp a))]"
    by blast
  then have cells: "map (\<lambda>a. attendee_row a ! 4) (export_rows sample_db) =
     [''2024-03-09 18:05:07'', ''2024-03-09 07:45:30'', ''2024-03-09 07:05:07'']"
    by (simp add: sample_export_rows)
      (simp add: sample_attendees_def sample_time_def later_time_def digit_char_def)
  from s v y(1) ids rows n cells sample_csv_text show ?thesis by blast
qed

end
